theory Spec2Isabelle
  imports Complex_Main "HOL-Library.Word" "HOL-Library.Sublist"
begin

section \<open>JavaScript strings\<close>

text \<open>
  A JavaScript string is a sequence of UTF-16 code units. String literals of the source
  that are plain ASCII are written with \<open>str\<close>; the Chinese texts of the source are
  listed by code unit.
\<close>

type_synonym jschar = "16 word"
type_synonym jsstring = "jschar list"

definition str :: "string \<Rightarrow> jsstring" where
  "str s = map of_char s"

text \<open>\<^verbatim>\<open>String.prototype.includes\<close>: the needle occurs at some index.\<close>

fun js_includes :: "jsstring \<Rightarrow> jsstring \<Rightarrow> bool" where
  "js_includes [] needle = (needle = [])"
| "js_includes (c # cs) needle = (prefix needle (c # cs) \<or> js_includes cs needle)"

text \<open>
  \<^verbatim>\<open>String.prototype.trim\<close> strips WhiteSpace and LineTerminator code points from both
  ends: TAB, LF, VT, FF, CR, SP, NBSP, U+1680, U+2000..U+200A, LS, PS, U+202F, U+205F,
  U+3000 and the byte order mark U+FEFF.
\<close>

definition isWhiteSpace :: "jschar \<Rightarrow> bool" where
  "isWhiteSpace c \<longleftrightarrow>
     (0x0009 \<le> c \<and> c \<le> 0x000D) \<or> c = 0x0020 \<or> c = 0x00A0 \<or> c = 0x1680 \<or>
     (0x2000 \<le> c \<and> c \<le> 0x200A) \<or> c = 0x2028 \<or> c = 0x2029 \<or> c = 0x202F \<or>
     c = 0x205F \<or> c = 0x3000 \<or> c = 0xFEFF"

definition trim :: "jsstring \<Rightarrow> jsstring" where
  "trim s = rev (dropWhile isWhiteSpace (rev (dropWhile isWhiteSpace s)))"

text \<open>Decimal rendering of a non-negative integer, as a template literal prints it.\<close>

function decimal :: "nat \<Rightarrow> jsstring" where
  "decimal n =
     (if n < 10 then [0x0030 + of_nat n]
      else decimal (n div 10) @ [0x0030 + of_nat (n mod 10)])"
  by pat_completeness auto
termination
  by (relation "measure (\<lambda>n. n)") auto

section \<open>Regular expressions\<close>

text \<open>
  The two regular expressions of the source are sequences of literals, quantified
  character classes and the anchors \<^verbatim>\<open>^\<close> and \<^verbatim>\<open>$\<close> (no flags). They are run by a
  backtracking matcher with continuations, as ECMAScript defines matching: a greedy
  quantifier first tries one more repetition and falls back to the continuation.
  A cursor is the index into the input together with the rest of the input.
\<close>

datatype atom =
    Lit jsstring
  | Rep "jschar \<Rightarrow> bool" nat "nat option"
  | Bol
  | Eol

fun repeatClass ::
  "(jschar \<Rightarrow> bool) \<Rightarrow> nat \<Rightarrow> nat option \<Rightarrow> (nat \<Rightarrow> jsstring \<Rightarrow> (nat \<times> jsstring) option)
     \<Rightarrow> nat \<Rightarrow> jsstring \<Rightarrow> (nat \<times> jsstring) option" where
  "repeatClass p mn mx k i [] = (if mx = Some 0 \<or> mn = 0 then k i [] else None)"
| "repeatClass p mn mx k i (c # cs) =
     (if mx = Some 0 then k i (c # cs)
      else if p c then
        (case repeatClass p (mn - 1) (map_option (\<lambda>n. n - 1) mx) k (Suc i) cs of
           Some r \<Rightarrow> Some r
         | None \<Rightarrow> if mn = 0 then k i (c # cs) else None)
      else if mn = 0 then k i (c # cs) else None)"

fun matchSeq :: "atom list \<Rightarrow> nat \<Rightarrow> jsstring \<Rightarrow> (nat \<times> jsstring) option" where
  "matchSeq [] i s = Some (i, s)"
| "matchSeq (Lit l # r) i s =
     (if prefix l s then matchSeq r (i + length l) (drop (length l) s) else None)"
| "matchSeq (Rep p mn mx # r) i s = repeatClass p mn mx (matchSeq r) i s"
| "matchSeq (Bol # r) i s = (if i = 0 then matchSeq r i s else None)"
| "matchSeq (Eol # r) i s = (if s = [] then matchSeq r i s else None)"

text \<open>
  \<^verbatim>\<open>RegExp.prototype.exec\<close> without the global or sticky flag: the start index runs
  from 0 upwards, one code unit at a time, and the first index with a match wins. The
  result is the matched substring (element 0 of the match array), or \<open>None\<close> for null.
\<close>

fun regexExecFrom :: "atom list \<Rightarrow> nat \<Rightarrow> jsstring \<Rightarrow> jsstring option" where
  "regexExecFrom r i [] =
     (case matchSeq r i [] of Some (j, rest) \<Rightarrow> Some [] | None \<Rightarrow> None)"
| "regexExecFrom r i (c # cs) =
     (case matchSeq r i (c # cs) of
        Some (j, rest) \<Rightarrow> Some (take (j - i) (c # cs))
      | None \<Rightarrow> regexExecFrom r (Suc i) cs)"

definition regexMatch :: "atom list \<Rightarrow> jsstring \<Rightarrow> jsstring option" where
  "regexMatch r s = regexExecFrom r 0 s"

definition regexTest :: "atom list \<Rightarrow> jsstring \<Rightarrow> bool" where
  "regexTest r s \<longleftrightarrow> regexExecFrom r 0 s \<noteq> None"

text \<open>The character classes \<^verbatim>\<open>[^;]\<close>, \<^verbatim>\<open>[A-Za-z0-9+/=]\<close>, \<^verbatim>\<open>[A-Za-z0-9+/]\<close> and \<^verbatim>\<open>=\<close>.\<close>

definition notSemicolon :: "jschar \<Rightarrow> bool" where
  "notSemicolon c \<longleftrightarrow> c \<noteq> of_char CHR '';''"

definition base64Char :: "jschar \<Rightarrow> bool" where
  "base64Char c \<longleftrightarrow>
     (of_char CHR ''A'' \<le> c \<and> c \<le> of_char CHR ''Z'') \<or>
     (of_char CHR ''a'' \<le> c \<and> c \<le> of_char CHR ''z'') \<or>
     (of_char CHR ''0'' \<le> c \<and> c \<le> of_char CHR ''9'') \<or>
     c = of_char CHR ''+'' \<or> c = of_char CHR ''/''"

definition base64OrPad :: "jschar \<Rightarrow> bool" where
  "base64OrPad c \<longleftrightarrow> base64Char c \<or> c = of_char CHR ''=''"

definition isPad :: "jschar \<Rightarrow> bool" where
  "isPad c \<longleftrightarrow> c = of_char CHR ''=''"

text \<open>\<^verbatim>\<open>/data:image\/[^;]+;base64,([A-Za-z0-9+/=]+)/\<close>\<close>

definition dataUriRegex :: "atom list" where
  "dataUriRegex =
     [Lit (str ''data:image/''), Rep notSemicolon 1 None,
      Lit (str '';base64,''), Rep base64OrPad 1 None]"

text \<open>\<^verbatim>\<open>/^[A-Za-z0-9+/]{100,}={0,2}$/\<close>\<close>

definition base64Pattern :: "atom list" where
  "base64Pattern = [Bol, Rep base64Char 100 None, Rep isPad 0 (Some 2), Eol]"

section \<open>JSON values and property access\<close>

text \<open>
  The value \<^verbatim>\<open>response.json()\<close> resolves to, as JavaScript sees it. \<open>JUndefined\<close> is
  what reading a missing property gives. A parsed object is the list of its own
  properties, each key once. Numbers are only ever tested for truthiness.
\<close>

datatype jsval =
    JUndefined
  | JNull
  | JBool bool
  | JNum rat
  | JStr jsstring
  | JArr "jsval list"
  | JObj "(jsstring \<times> jsval) list"

fun truthy :: "jsval \<Rightarrow> bool" where
  "truthy JUndefined = False"
| "truthy JNull = False"
| "truthy (JBool b) = b"
| "truthy (JNum n) = (n \<noteq> 0)"
| "truthy (JStr s) = (s \<noteq> [])"
| "truthy (JArr xs) = True"
| "truthy (JObj kvs) = True"

fun nullish :: "jsval \<Rightarrow> bool" where
  "nullish JUndefined = True"
| "nullish JNull = True"
| "nullish v = False"

fun isArray :: "jsval \<Rightarrow> bool" where
  "isArray (JArr xs) = True"
| "isArray v = False"

text \<open>
  Texts that the JavaScript engine chooses, not the program: the message of a TypeError
  raised for reading a property of null or undefined, or for calling a method that a
  value does not have, and the message \<^verbatim>\<open>new Error(v)\<close> gets from a \<open>v\<close> that is not a
  string. A thrown value is an Error object with its message, such an engine-worded
  Error, or a value that is not an Error at all.
\<close>

datatype engine_text =
    ReadOfNullish jsstring
  | NotAFunction jsstring
  | MessageFromValue jsval

datatype thrown =
    JsError jsstring
  | EngineError engine_text
  | NonError

text \<open>
  Reading member \<open>p\<close> of a value that is neither null nor undefined, for the property
  names this program reads (\<^verbatim>\<open>choices\<close>, \<^verbatim>\<open>0\<close>, \<^verbatim>\<open>message\<close>, \<^verbatim>\<open>content\<close>, \<^verbatim>\<open>images\<close>,
  \<^verbatim>\<open>attachments\<close>, \<^verbatim>\<open>image_url\<close>, \<^verbatim>\<open>url\<close>, \<^verbatim>\<open>type\<close>, \<^verbatim>\<open>content_type\<close>, \<^verbatim>\<open>error\<close>): none of
  them is inherited from a prototype, so an object answers from its own properties, an
  array or a string only for index 0, and every other value with undefined. The same
  holds for \<^verbatim>\<open>substring\<close> on every value that is not a string.
\<close>

fun member_of :: "jsval \<Rightarrow> jsstring \<Rightarrow> jsval" where
  "member_of (JObj kvs) p = (case map_of kvs p of Some v \<Rightarrow> v | None \<Rightarrow> JUndefined)"
| "member_of (JArr xs) p =
     (if p = str ''0'' then (case xs of [] \<Rightarrow> JUndefined | x # rest \<Rightarrow> x) else JUndefined)"
| "member_of (JStr s) p =
     (if p = str ''0'' then (case s of [] \<Rightarrow> JUndefined | c # rest \<Rightarrow> JStr [c])
      else JUndefined)"
| "member_of v p = JUndefined"

text \<open>\<^verbatim>\<open>v.p\<close> throws a TypeError on null and undefined; \<^verbatim>\<open>v?.p\<close> gives undefined there.\<close>

definition getProp :: "jsval \<Rightarrow> jsstring \<Rightarrow> thrown + jsval" where
  "getProp v p = (if nullish v then Inl (EngineError (ReadOfNullish p)) else Inr (member_of v p))"

definition getOpt :: "jsval \<Rightarrow> jsstring \<Rightarrow> jsval" where
  "getOpt v p = (if nullish v then JUndefined else member_of v p)"

definition andThen :: "'e + 'a \<Rightarrow> ('a \<Rightarrow> 'e + 'b) \<Rightarrow> 'e + 'b" where
  "andThen m f = (case m of Inl e \<Rightarrow> Inl e | Inr v \<Rightarrow> f v)"

section \<open>Building the request\<close>

record secondaryImage =
  base64 :: jsstring
  mimeType :: jsstring

datatype part =
    ImageUrlPart jsstring
  | TextPart jsstring

record chatMessage =
  role :: jsstring
  content :: "part list"

record requestBody =
  model :: jsstring
  messages :: "chatMessage list"
  max_tokens :: nat
  temperature :: rat

definition MODEL_NAME :: jsstring where
  "MODEL_NAME = str ''google/gemini-2.5-flash-image-preview''"

text \<open>\<^verbatim>\<open>data:${mimeType};base64,${base64}\<close>\<close>

definition dataUri :: "jsstring \<Rightarrow> jsstring \<Rightarrow> jsstring" where
  "dataUri mime b64 = str ''data:'' @ mime @ str '';base64,'' @ b64"

text \<open>
  A mask or secondary image is used when the argument is truthy: a mask that is null or
  the empty string is no mask; a secondary image object is used whenever it is not null.
\<close>

definition maskGiven :: "jsstring option \<Rightarrow> bool" where
  "maskGiven maskBase64 \<longleftrightarrow> (case maskBase64 of None \<Rightarrow> False | Some m \<Rightarrow> m \<noteq> [])"

text \<open>
  The rewritten prompt of a masked edit; the code unit 0x22 is the double quote around
  the caller's prompt.
\<close>

definition maskedPrompt :: "jsstring \<Rightarrow> jsstring" where
  "maskedPrompt prompt =
     str ''Apply the following instruction only to the masked area of the image: ''
       @ [of_char (CHR 0x22)] @ prompt @ [of_char (CHR 0x22)]
       @ str ''. Preserve the unmasked area.''"

definition fullPrompt :: "jsstring \<Rightarrow> jsstring option \<Rightarrow> jsstring" where
  "fullPrompt prompt maskBase64 = (if maskGiven maskBase64 then maskedPrompt prompt else prompt)"

definition imageSuffix :: jsstring where
  "imageSuffix = str '' Please generate and return an image as output.''"

definition enhancedPrompt :: "jsstring \<Rightarrow> jsstring option \<Rightarrow> jsstring" where
  "enhancedPrompt prompt maskBase64 = fullPrompt prompt maskBase64 @ imageSuffix"

definition messageContent ::
  "jsstring \<Rightarrow> jsstring \<Rightarrow> jsstring \<Rightarrow> jsstring option \<Rightarrow> secondaryImage option \<Rightarrow> part list" where
  "messageContent base64ImageData mime prompt maskBase64 secondary =
     [ImageUrlPart (dataUri mime base64ImageData)]
     @ (case maskBase64 of
          None \<Rightarrow> []
        | Some m \<Rightarrow> if m \<noteq> [] then [ImageUrlPart (dataUri (str ''image/png'') m)] else [])
     @ (case secondary of
          None \<Rightarrow> []
        | Some img \<Rightarrow> [ImageUrlPart (dataUri (mimeType img) (base64 img))])
     @ [TextPart (enhancedPrompt prompt maskBase64)]"

definition buildRequest ::
  "jsstring \<Rightarrow> jsstring \<Rightarrow> jsstring \<Rightarrow> jsstring option \<Rightarrow> secondaryImage option \<Rightarrow> requestBody" where
  "buildRequest base64ImageData mime prompt maskBase64 secondary =
     \<lparr> model = MODEL_NAME,
       messages =
         [\<lparr> role = str ''user'',
            content = messageContent base64ImageData mime prompt maskBase64 secondary \<rparr>],
       max_tokens = 4096,
       temperature = 7 / 10 \<rparr>"

section \<open>The transport\<close>

text \<open>
  What the program sees of \<^verbatim>\<open>fetch\<close>: the promise rejects with a thrown value, or it
  resolves to a response, whose \<^verbatim>\<open>json()\<close> in turn gives the parsed body or throws.
\<close>

record response =
  ok :: bool
  status :: nat
  statusText :: jsstring
  json :: "thrown + jsval"

datatype fetch_result =
    Rejected thrown
  | Resolved response

text \<open>
  \<^verbatim>\<open>new Error(v)\<close>: the message is \<open>v\<close> itself when it is a string, and the engine's
  rendering of \<open>v\<close> otherwise.
\<close>

fun newError :: "jsval \<Rightarrow> thrown" where
  "newError (JStr m) = JsError m"
| "newError v = EngineError (MessageFromValue v)"

text \<open>
  The branch \<^verbatim>\<open>if (!response.ok)\<close>: always throws, with
  \<^verbatim>\<open>errorData.error?.message || `HTTP ${response.status}: ${response.statusText}`\<close>.
\<close>

definition httpErrorText :: "response \<Rightarrow> jsstring" where
  "httpErrorText r = str ''HTTP '' @ decimal (status r) @ str '': '' @ statusText r"

definition httpFailure :: "response \<Rightarrow> thrown" where
  "httpFailure r =
     (case json r of
        Inl t \<Rightarrow> t
      | Inr errorData \<Rightarrow>
          (case getProp errorData (str ''error'') of
             Inl t \<Rightarrow> t
           | Inr e \<Rightarrow>
               (let m = getOpt e (str ''message'')
                in if truthy m then newError m else JsError (httpErrorText r))))"

section \<open>Extracting the result\<close>

record GeneratedContent =
  imageUrl :: jsval
  text' :: jsval

text \<open>\<^verbatim>\<open>data.choices?.[0]?.message\<close> and \<^verbatim>\<open>data.choices?.[0]?.message?.content\<close>\<close>

definition firstMessage :: "jsval \<Rightarrow> thrown + jsval" where
  "firstMessage data =
     andThen (getProp data (str ''choices''))
       (\<lambda>choices. Inr (getOpt (getOpt choices (str ''0'')) (str ''message'')))"

definition responseContent :: "jsval \<Rightarrow> thrown + jsval" where
  "responseContent data =
     andThen (firstMessage data) (\<lambda>message. Inr (getOpt message (str ''content'')))"

text \<open>
  The logging call \<^verbatim>\<open>responseContent?.substring?.(0, 200)\<close> on a truthy content: a string
  has the method; any other value is asked for an own property \<^verbatim>\<open>substring\<close>, and the call
  is skipped when that is null or undefined. A parsed value is never a function, so what
  is left throws a TypeError.
\<close>

definition logPreview :: "jsval \<Rightarrow> thrown + unit" where
  "logPreview rc =
     (case rc of
        JStr s \<Rightarrow> Inr ()
      | _ \<Rightarrow>
          if nullish (member_of rc (str ''substring'')) then Inr ()
          else Inl (EngineError (NotAFunction (str ''substring''))))"

text \<open>
  The block \<^verbatim>\<open>if (responseContent) { ... }\<close>: the logging call, then the two expressions.
  \<^verbatim>\<open>match\<close> is a method of strings only, so the call throws a TypeError for every other
  truthy content.
\<close>

definition contentBlock :: "jsval \<Rightarrow> GeneratedContent \<Rightarrow> thrown + GeneratedContent" where
  "contentBlock rc result =
     (if truthy rc then
        andThen (logPreview rc)
          (\<lambda>logged.
             case rc of
               JStr s \<Rightarrow>
                 (let result1 =
                    (case regexMatch dataUriRegex s of
                       None \<Rightarrow>
                         if regexTest base64Pattern (trim s)
                         then result\<lparr>imageUrl := JStr (str ''data:image/png;base64,'' @ trim s)\<rparr>
                         else result
                     | Some m \<Rightarrow> result\<lparr>imageUrl := JStr m\<rparr>)
                  in Inr (if \<not> truthy (imageUrl result1) then result1\<lparr>text' := JStr s\<rparr>
                          else result1))
             | _ \<Rightarrow> Inl (EngineError (NotAFunction (str ''match''))))
      else Inr result)"

text \<open>
  The loop over \<^verbatim>\<open>message.images\<close>, and the same loop over \<^verbatim>\<open>message.content\<close>: the
  first entry with \<^verbatim>\<open>type === 'image_url'\<close> and a truthy \<^verbatim>\<open>image_url?.url\<close> sets the image
  and ends the loop.
\<close>

fun scanImageUrlParts :: "jsval list \<Rightarrow> GeneratedContent \<Rightarrow> thrown + GeneratedContent" where
  "scanImageUrlParts [] result = Inr result"
| "scanImageUrlParts (item # rest) result =
     andThen (getProp item (str ''type''))
       (\<lambda>t. if t = JStr (str ''image_url'')
               \<and> truthy (getOpt (member_of item (str ''image_url'')) (str ''url''))
            then Inr (result\<lparr>imageUrl := getOpt (member_of item (str ''image_url'')) (str ''url'')\<rparr>)
            else scanImageUrlParts rest result)"

definition imagesBlock :: "jsval \<Rightarrow> GeneratedContent \<Rightarrow> thrown + GeneratedContent" where
  "imagesBlock message result =
     (let images = member_of message (str ''images'')
      in if truthy images \<and> isArray images
         then (case images of JArr xs \<Rightarrow> scanImageUrlParts xs result | _ \<Rightarrow> Inr result)
         else Inr result)"

text \<open>
  The predicate given to \<^verbatim>\<open>find\<close>:
  \<^verbatim>\<open>att.type === 'image' || att.content_type?.startsWith('image/')\<close>.
\<close>

definition isImageAttachment :: "jsval \<Rightarrow> thrown + bool" where
  "isImageAttachment att =
     andThen (getProp att (str ''type''))
       (\<lambda>t. if t = JStr (str ''image'') then Inr True
            else (case member_of att (str ''content_type'') of
                    JUndefined \<Rightarrow> Inr False
                  | JNull \<Rightarrow> Inr False
                  | JStr ct \<Rightarrow> Inr (prefix (str ''image/'') ct)
                  | _ \<Rightarrow> Inl (EngineError (NotAFunction (str ''startsWith'')))))"

text \<open>\<^verbatim>\<open>Array.prototype.find\<close>: the first element the predicate accepts, else undefined.\<close>

fun findAttachment :: "jsval list \<Rightarrow> thrown + jsval" where
  "findAttachment [] = Inr JUndefined"
| "findAttachment (att # rest) =
     andThen (isImageAttachment att)
       (\<lambda>b. if b then Inr att else findAttachment rest)"

definition attachmentsBlock :: "jsval \<Rightarrow> GeneratedContent \<Rightarrow> thrown + GeneratedContent" where
  "attachmentsBlock message result =
     (if \<not> truthy (imageUrl result) \<and> truthy (member_of message (str ''attachments''))
      then (case member_of message (str ''attachments'') of
              JArr atts \<Rightarrow>
                andThen (findAttachment atts)
                  (\<lambda>imageAttachment.
                     if truthy (getOpt imageAttachment (str ''url''))
                     then Inr (result\<lparr>imageUrl := getOpt imageAttachment (str ''url'')\<rparr>)
                     else Inr result)
            | _ \<Rightarrow> Inl (EngineError (NotAFunction (str ''find''))))
      else Inr result)"

definition directUrlBlock :: "jsval \<Rightarrow> GeneratedContent \<Rightarrow> GeneratedContent" where
  "directUrlBlock message result =
     (if \<not> truthy (imageUrl result) \<and> truthy (member_of message (str ''image_url''))
      then result\<lparr>imageUrl := member_of message (str ''image_url'')\<rparr>
      else result)"

definition contentArrayBlock :: "jsval \<Rightarrow> GeneratedContent \<Rightarrow> thrown + GeneratedContent" where
  "contentArrayBlock message result =
     (if \<not> truthy (imageUrl result) \<and> isArray (member_of message (str ''content''))
      then (case member_of message (str ''content'') of
              JArr xs \<Rightarrow> scanImageUrlParts xs result
            | _ \<Rightarrow> Inr result)
      else Inr result)"

text \<open>The block \<^verbatim>\<open>if (!result.imageUrl && data.choices?.[0]?.message) { ... }\<close>.\<close>

definition alternateFormats :: "jsval \<Rightarrow> GeneratedContent \<Rightarrow> thrown + GeneratedContent" where
  "alternateFormats message result =
     andThen (imagesBlock message result)
       (\<lambda>r1. andThen (attachmentsBlock message r1)
          (\<lambda>r2. contentArrayBlock message (directUrlBlock message r2)))"

text \<open>The message of the error thrown when no image was found.\<close>

definition noImageMessage :: "jsval \<Rightarrow> jsstring" where
  "noImageMessage t =
     str ''Gemini 2.5 Flash Image Preview ''
       @ [0x6A21, 0x578B, 0x6CA1, 0x6709, 0x8FD4, 0x56DE, 0x56FE, 0x50CF, 0x3002, 0x000A, 0x000A]
     @ (case t of
          JStr s \<Rightarrow>
            if s \<noteq> [] then [0x6A21, 0x578B, 0x54CD, 0x5E94, 0xFF1A] @ s @ [0x000A, 0x000A] else []
        | _ \<Rightarrow> [])
     @ [0x53EF, 0x80FD, 0x7684, 0x539F, 0x56E0, 0xFF1A, 0x000A]
     @ [0x2022] @ str '' '' @ [0x63D0, 0x793A, 0x8BCD, 0x53EF, 0x80FD, 0x88AB, 0x5B89, 0x5168,
         0x8FC7, 0x6EE4, 0x5668, 0x963B, 0x6B62, 0x000A]
     @ [0x2022] @ str '' '' @ [0x8F93, 0x5165, 0x56FE, 0x50CF, 0x683C, 0x5F0F, 0x6216, 0x5185,
         0x5BB9, 0x4E0D, 0x7B26, 0x5408, 0x8981, 0x6C42, 0x000A]
     @ [0x2022] @ str '' API '' @ [0x54CD, 0x5E94, 0x683C, 0x5F0F, 0x53D1, 0x751F, 0x53D8, 0x5316,
         0x000A]
     @ [0x2022] @ str '' '' @ [0x6A21, 0x578B, 0x6682, 0x65F6, 0x4E0D, 0x53EF, 0x7528, 0x000A,
         0x000A]
     @ [0x5EFA, 0x8BAE, 0x5C1D, 0x8BD5, 0xFF1A, 0x000A]
     @ [0x2022] @ str '' '' @ [0x4FEE, 0x6539, 0x63D0, 0x793A, 0x8BCD, 0xFF0C, 0x907F, 0x514D,
         0x654F, 0x611F, 0x5185, 0x5BB9, 0x000A]
     @ [0x2022] @ str '' '' @ [0x4F7F, 0x7528, 0x4E0D, 0x540C, 0x7684, 0x8F93, 0x5165, 0x56FE,
         0x50CF, 0x000A]
     @ [0x2022] @ str '' '' @ [0x7A0D, 0x540E, 0x91CD, 0x8BD5]"

text \<open>
  Everything after \<^verbatim>\<open>const data = await response.json()\<close>: the result starts with both
  fields null, the content block runs, then the alternate formats when there is still no
  image and the message is truthy, then the final check.
\<close>

definition emptyResult :: GeneratedContent where
  "emptyResult = \<lparr> imageUrl = JNull, text' = JNull \<rparr>"

definition extractContent :: "jsval \<Rightarrow> thrown + GeneratedContent" where
  "extractContent data =
     andThen (responseContent data)
       (\<lambda>rc. andThen (contentBlock rc emptyResult)
          (\<lambda>r1. andThen
                  (if \<not> truthy (imageUrl r1)
                   then andThen (firstMessage data)
                          (\<lambda>message. if truthy message then alternateFormats message r1
                                      else Inr r1)
                   else Inr r1)
                  (\<lambda>r2. if \<not> truthy (imageUrl r2)
                         then Inl (JsError (noImageMessage (text' r2)))
                         else Inr r2)))"

section \<open>The whole call\<close>

definition networkErrorMessage :: jsstring where
  "networkErrorMessage =
     str ''Network error occurred. Please check your internet connection and try again.''"

definition unknownErrorMessage :: jsstring where
  "unknownErrorMessage = str ''An unknown error occurred while communicating with the API.''"

text \<open>
  The \<^verbatim>\<open>catch\<close> clause. Every path ends in \<^verbatim>\<open>throw new Error(...)\<close>; the value is the
  message of that error. \<open>engine\<close> gives the wording of the engine's own messages.
\<close>

definition normalise :: "jsstring \<Rightarrow> jsstring" where
  "normalise errorMessage =
     (if js_includes errorMessage (str ''fetch'') then networkErrorMessage else errorMessage)"

fun catchClause :: "(engine_text \<Rightarrow> jsstring) \<Rightarrow> thrown \<Rightarrow> jsstring" where
  "catchClause engine (JsError m) = normalise m"
| "catchClause engine (EngineError e) = normalise (engine e)"
| "catchClause engine NonError = unknownErrorMessage"

definition tryBody ::
  "(requestBody \<Rightarrow> fetch_result) \<Rightarrow> jsstring \<Rightarrow> jsstring \<Rightarrow> jsstring \<Rightarrow> jsstring option
     \<Rightarrow> secondaryImage option \<Rightarrow> thrown + GeneratedContent" where
  "tryBody fetch base64ImageData mime prompt maskBase64 secondary =
     (case fetch (buildRequest base64ImageData mime prompt maskBase64 secondary) of
        Rejected t \<Rightarrow> Inl t
      | Resolved r \<Rightarrow>
          if \<not> ok r then Inl (httpFailure r)
          else andThen (json r) extractContent)"

definition editImage ::
  "(engine_text \<Rightarrow> jsstring) \<Rightarrow> (requestBody \<Rightarrow> fetch_result) \<Rightarrow> jsstring \<Rightarrow> jsstring \<Rightarrow> jsstring
     \<Rightarrow> jsstring option \<Rightarrow> secondaryImage option \<Rightarrow> jsstring + GeneratedContent" where
  "editImage engine fetch base64ImageData mime prompt maskBase64 secondary =
     (case tryBody fetch base64ImageData mime prompt maskBase64 secondary of
        Inl t \<Rightarrow> Inl (catchClause engine t)
      | Inr result \<Rightarrow> Inr result)"

text \<open>
  A transport for the round trip: it answers every request with a successful response
  whose first choice's message content is the URL of the request's first image part.
\<close>

definition echoPrimary :: "requestBody \<Rightarrow> fetch_result" where
  "echoPrimary req =
     (case messages req of
        [m] \<Rightarrow>
          (case content m of
             ImageUrlPart url # parts \<Rightarrow>
               Resolved \<lparr> ok = True, status = 200, statusText = str ''OK'',
                 json = Inr (JObj [(str ''choices'',
                          JArr [JObj [(str ''message'', JObj [(str ''content'', JStr url)])]])]) \<rparr>
           | _ \<Rightarrow> Rejected NonError)
      | _ \<Rightarrow> Rejected NonError)"

text \<open>Telling the text part of a message from its image parts.\<close>

fun isTextPart :: "part \<Rightarrow> bool" where
  "isTextPart (TextPart t) = True"
| "isTextPart (ImageUrlPart u) = False"

text \<open>
  What the content block leaves in the text field: the content itself when it is a
  non-empty string in which neither expression finds an image, and null otherwise.
\<close>

definition contentText :: "jsval \<Rightarrow> jsval" where
  "contentText rc =
     (case rc of
        JStr s \<Rightarrow>
          if s \<noteq> [] \<and> regexMatch dataUriRegex s = None \<and> \<not> regexTest base64Pattern (trim s)
          then JStr s else JNull
      | _ \<Rightarrow> JNull)"

section \<open>Properties of the matcher\<close>

lemma repeatClass_unique:
  assumes "\<And>c cs j. p c \<Longrightarrow> k j (c # cs) = None"
  shows "repeatClass p mn None k i s =
           (if mn \<le> length (takeWhile p s)
            then k (i + length (takeWhile p s)) (dropWhile p s) else None)"
proof (induction s arbitrary: mn i)
  case Nil
  show ?case by simp
next
  case (Cons c cs)
  show ?case
  proof (cases "p c")
    case True
    then show ?thesis
      using Cons.IH [of "mn - 1" "Suc i"] assms [of c i cs]
      by (auto split: option.splits)
  next
    case False
    then show ?thesis by simp
  qed
qed

lemma repeatClass_last:
  "repeatClass p mn None (\<lambda>j t. Some (j, t)) i s =
     (if mn \<le> length (takeWhile p s)
      then Some (i + length (takeWhile p s), dropWhile p s) else None)"
proof (induction s arbitrary: mn i)
  case Nil
  show ?case by simp
next
  case (Cons c cs)
  show ?case
    using Cons.IH [of "mn - 1" "Suc i"]
    by (auto split: option.splits)
qed

lemma matchSeq_Nil_eta: "matchSeq [] = (\<lambda>j t. Some (j, t))"
  by (intro ext) simp

text \<open>The shape literal, class+, literal, class+ of the data URI expression.\<close>

lemma matchSeq_shape:
  assumes "\<not> p x"
  shows "matchSeq [Lit l1, Rep p 1 None, Lit (x # l2), Rep q 1 None] i s =
     (if prefix l1 s \<and> takeWhile p (drop (length l1) s) \<noteq> []
         \<and> prefix (x # l2) (dropWhile p (drop (length l1) s))
         \<and> takeWhile q (drop (length (x # l2)) (dropWhile p (drop (length l1) s))) \<noteq> []
      then Some (i + length l1 + length (takeWhile p (drop (length l1) s)) + length (x # l2)
                   + length (takeWhile q (drop (length (x # l2)) (dropWhile p (drop (length l1) s)))),
                 dropWhile q (drop (length (x # l2)) (dropWhile p (drop (length l1) s))))
      else None)"
proof -
  have k: "\<And>c cs j. p c \<Longrightarrow> matchSeq [Lit (x # l2), Rep q 1 None] j (c # cs) = None"
    using assms by auto
  have nonempty: "\<And>xs :: jsstring. 1 \<le> length xs \<longleftrightarrow> xs \<noteq> []"
    by (simp add: Suc_le_eq)
  have inner: "\<And>j t. matchSeq [Lit (x # l2), Rep q 1 None] j t =
     (if prefix (x # l2) t \<and> takeWhile q (drop (length (x # l2)) t) \<noteq> []
      then Some (j + length (x # l2) + length (takeWhile q (drop (length (x # l2)) t)),
                 dropWhile q (drop (length (x # l2)) t))
      else None)"
    by (simp only: matchSeq.simps matchSeq_Nil_eta repeatClass_last nonempty) simp
  have outer: "matchSeq [Lit l1, Rep p 1 None, Lit (x # l2), Rep q 1 None] i s =
     (if prefix l1 s \<and> takeWhile p (drop (length l1) s) \<noteq> []
      then matchSeq [Lit (x # l2), Rep q 1 None]
             (i + length l1 + length (takeWhile p (drop (length l1) s)))
             (dropWhile p (drop (length l1) s))
      else None)"
    by (simp only: matchSeq.simps(2,3)
          repeatClass_unique [where p = p and k = "matchSeq [Lit (x # l2), Rep q 1 None]", OF k]
          nonempty) simp
  show ?thesis
    unfolding outer inner by (simp del: length_Cons)
qed

lemma matchSeq_shape_sound:
  assumes "\<not> p x"
    and "matchSeq [Lit l1, Rep p 1 None, Lit (x # l2), Rep q 1 None] i s = Some (j, rest)"
  shows "\<exists>sub pay. s = l1 @ sub @ (x # l2) @ pay @ rest \<and> sub \<noteq> [] \<and> (\<forall>c\<in>set sub. p c)
           \<and> pay \<noteq> [] \<and> (\<forall>c\<in>set pay. q c) \<and> (rest = [] \<or> \<not> q (hd rest))
           \<and> j = i + length (l1 @ sub @ (x # l2) @ pay)"
proof -
  define r1 where "r1 = drop (length l1) s"
  define r3 where "r3 = drop (length (x # l2)) (dropWhile p r1)"
  from assms(2) have c: "prefix l1 s" "takeWhile p r1 \<noteq> []" "prefix (x # l2) (dropWhile p r1)"
    "takeWhile q r3 \<noteq> []" "rest = dropWhile q r3"
    "j = i + length l1 + length (takeWhile p r1) + length (x # l2) + length (takeWhile q r3)"
    unfolding matchSeq_shape [where p = p and x = x, OF assms(1)] r1_def r3_def
    by (auto split: if_splits)
  from c(1) have s: "s = l1 @ r1"
    unfolding r1_def by (auto simp: prefix_def)
  from c(3) have r2: "dropWhile p r1 = (x # l2) @ r3"
    unfolding r3_def by (auto simp: prefix_def simp del: append_Cons)
  have r1: "r1 = takeWhile p r1 @ (x # l2) @ r3"
    using takeWhile_dropWhile_id [of p r1] r2 by simp
  have r3: "r3 = takeWhile q r3 @ rest"
    using c(5) by simp
  have "s = l1 @ takeWhile p r1 @ (x # l2) @ takeWhile q r3 @ rest"
    using s r1 r3 by metis
  moreover have "\<forall>c\<in>set (takeWhile p r1). p c" "\<forall>c\<in>set (takeWhile q r3). q c"
    by (auto dest: set_takeWhileD)
  moreover have "rest = [] \<or> \<not> q (hd rest)"
    using c(5) hd_dropWhile [of q r3] by auto
  ultimately show ?thesis
    using c(2,4,6) by (intro exI [of _ "takeWhile p r1"] exI [of _ "takeWhile q r3"]) simp
qed

lemma matchSeq_shape_complete:
  assumes "\<not> p x" "sub \<noteq> []" "\<forall>c\<in>set sub. p c" "pay \<noteq> []" "\<forall>c\<in>set pay. q c"
  shows "matchSeq [Lit l1, Rep p 1 None, Lit (x # l2), Rep q 1 None] i
           (l1 @ sub @ (x # l2) @ pay @ post) =
         Some (i + length (l1 @ sub @ (x # l2) @ pay @ takeWhile q post), dropWhile q post)"
proof -
  have t1: "takeWhile p (sub @ (x # l2) @ pay @ post) = sub"
    using assms(1,3) by (simp add: takeWhile_append2)
  have d1: "dropWhile p (sub @ (x # l2) @ pay @ post) = (x # l2) @ pay @ post"
    using assms(1,3) by (simp add: dropWhile_append2)
  have t2: "takeWhile q (pay @ post) = pay @ takeWhile q post"
    using assms(5) by (simp add: takeWhile_append2)
  have d2: "dropWhile q (pay @ post) = dropWhile q post"
    using assms(5) by (simp add: dropWhile_append2)
  have dd: "drop (length (x # l2)) ((x # l2) @ pay @ post) = pay @ post"
    by simp
  show ?thesis
    unfolding matchSeq_shape [where p = p and x = x, OF assms(1)]
    using assms(2,4) by (simp add: t1 d1 t2 d2 dd del: append_Cons length_Cons)
qed

text \<open>The search over start indices.\<close>

lemma regexExecFrom_hit:
  "matchSeq r i s = Some (j, rest) \<Longrightarrow> regexExecFrom r i s = Some (take (j - i) s)"
  by (cases s) auto

lemma regexExecFrom_complete:
  "matchSeq r (i + length pre) t \<noteq> None \<Longrightarrow> regexExecFrom r i (pre @ t) \<noteq> None"
proof (induction pre arbitrary: i)
  case Nil
  then show ?case by (cases t) (auto split: option.splits)
next
  case (Cons c pre)
  then show ?case
    using Cons.IH [of "Suc i"] by (auto split: option.splits)
qed

lemma regexExecFrom_sound:
  "regexExecFrom r i s = Some m \<Longrightarrow>
     \<exists>pre t j rest. s = pre @ t \<and> matchSeq r (i + length pre) t = Some (j, rest)
        \<and> m = take (j - (i + length pre)) t
        \<and> (\<forall>k<length pre. matchSeq r (i + k) (drop k s) = None)"
proof (induction s arbitrary: i)
  case Nil
  then show ?case by (auto split: option.splits)
next
  case (Cons c cs)
  show ?case
  proof (cases "matchSeq r i (c # cs)")
    case None
    with Cons.prems have "regexExecFrom r (Suc i) cs = Some m" by simp
    from Cons.IH [OF this] obtain pre t j rest where
      h: "cs = pre @ t" "matchSeq r (Suc i + length pre) t = Some (j, rest)"
         "m = take (j - (Suc i + length pre)) t"
         "\<forall>k<length pre. matchSeq r (Suc i + k) (drop k cs) = None"
      by blast
    have "matchSeq r (i + k) (drop k (c # cs)) = None" if "k < length (c # pre)" for k
      using that None h(4) by (cases k) simp_all
    then show ?thesis
      using h(1-3)
      by (intro exI [of _ "c # pre"] exI [of _ t] exI [of _ j] exI [of _ rest]) simp
  next
    case (Some a)
    obtain j rest where a: "a = (j, rest)" by (cases a)
    with Some Cons.prems have "m = take (j - i) (c # cs)" by simp
    with Some a show ?thesis
      by (intro exI [of _ "[]"] exI [of _ "c # cs"] exI [of _ j] exI [of _ rest]) simp
  qed
qed

text \<open>The data URI expression.\<close>

lemma semicolon_literal: "str '';base64,'' = of_char CHR '';'' # str ''base64,''"
  by (simp add: str_def)

lemma semicolon_class: "\<not> notSemicolon (of_char CHR '';'')"
  by (simp add: notSemicolon_def)

lemma dataUri_match_form:
  assumes "regexMatch dataUriRegex s = Some m"
  shows "\<exists>pre sub pay rest. s = pre @ m @ rest
           \<and> m = str ''data:image/'' @ sub @ str '';base64,'' @ pay
           \<and> sub \<noteq> [] \<and> (\<forall>c\<in>set sub. notSemicolon c)
           \<and> pay \<noteq> [] \<and> (\<forall>c\<in>set pay. base64OrPad c)
           \<and> (rest = [] \<or> \<not> base64OrPad (hd rest))
           \<and> (\<forall>k<length pre. matchSeq dataUriRegex k (drop k s) = None)"
proof -
  from regexExecFrom_sound [of dataUriRegex 0 s m] assms obtain pre t j rest where
    h: "s = pre @ t" "matchSeq dataUriRegex (0 + length pre) t = Some (j, rest)"
       "m = take (j - (0 + length pre)) t"
       "\<forall>k<length pre. matchSeq dataUriRegex (0 + k) (drop k s) = None"
    unfolding regexMatch_def by blast
  from h(2) have "matchSeq [Lit (str ''data:image/''), Rep notSemicolon 1 None,
      Lit (of_char CHR '';'' # str ''base64,''), Rep base64OrPad 1 None] (0 + length pre) t = Some (j, rest)"
    by (simp add: dataUriRegex_def semicolon_literal)
  from matchSeq_shape_sound [where p = notSemicolon and x = "of_char CHR '';''", OF semicolon_class this]
  obtain sub pay where
    f: "t = str ''data:image/'' @ sub @ (of_char CHR '';'' # str ''base64,'') @ pay @ rest"
       "sub \<noteq> []" "\<forall>c\<in>set sub. notSemicolon c" "pay \<noteq> []" "\<forall>c\<in>set pay. base64OrPad c"
       "rest = [] \<or> \<not> base64OrPad (hd rest)"
       "j = 0 + length pre + length (str ''data:image/'' @ sub @ (of_char CHR '';'' # str ''base64,'') @ pay)"
    by blast
  have m: "m = str ''data:image/'' @ sub @ str '';base64,'' @ pay"
    unfolding h(3) using f(1,7) by (simp add: semicolon_literal)
  have "s = pre @ m @ rest"
    unfolding h(1) m using f(1) by (simp add: semicolon_literal)
  moreover have "\<forall>k<length pre. matchSeq dataUriRegex k (drop k s) = None"
    using h(4) by simp
  ultimately show ?thesis
    using m f(2-6) by blast
qed

lemma dataUri_match_nonempty: "regexMatch dataUriRegex s = Some m \<Longrightarrow> m \<noteq> []"
  by (drule dataUri_match_form) (auto simp: str_def)

lemma dataUri_match_here:
  assumes "sub \<noteq> []" "\<forall>c\<in>set sub. notSemicolon c" "pay \<noteq> []" "\<forall>c\<in>set pay. base64OrPad c"
  shows "matchSeq dataUriRegex i (str ''data:image/'' @ sub @ str '';base64,'' @ pay @ post) \<noteq> None"
  unfolding dataUriRegex_def semicolon_literal
  using matchSeq_shape_complete [where p = notSemicolon and x = "of_char CHR '';''"
      and q = base64OrPad, OF semicolon_class assms]
  by simp

lemma dataUri_match_exists:
  assumes "sub \<noteq> []" "\<forall>c\<in>set sub. notSemicolon c" "pay \<noteq> []" "\<forall>c\<in>set pay. base64OrPad c"
  shows "regexMatch dataUriRegex (pre @ str ''data:image/'' @ sub @ str '';base64,'' @ pay @ post) \<noteq> None"
  unfolding regexMatch_def
  by (rule regexExecFrom_complete) (rule dataUri_match_here [OF assms])

lemma dataUri_match_whole:
  assumes "sub \<noteq> []" "\<forall>c\<in>set sub. notSemicolon c" "pay \<noteq> []" "\<forall>c\<in>set pay. base64OrPad c"
  shows "regexMatch dataUriRegex (str ''data:image/'' @ sub @ str '';base64,'' @ pay) =
           Some (str ''data:image/'' @ sub @ str '';base64,'' @ pay)"
proof -
  have "matchSeq dataUriRegex 0
          (str ''data:image/'' @ sub @ (of_char CHR '';'' # str ''base64,'') @ pay @ []) =
        Some (0 + length (str ''data:image/'' @ sub @ (of_char CHR '';'' # str ''base64,'') @ pay
                @ takeWhile base64OrPad []), dropWhile base64OrPad [])"
    unfolding dataUriRegex_def semicolon_literal
    by (rule matchSeq_shape_complete [where p = notSemicolon and x = "of_char CHR '';''"
        and q = base64OrPad, OF semicolon_class assms])
  from regexExecFrom_hit [OF this] show ?thesis
    unfolding regexMatch_def semicolon_literal by simp
qed

text \<open>The content block.\<close>

lemma contentBlock_dataUri:
  "regexMatch dataUriRegex s = Some m \<Longrightarrow>
     contentBlock (JStr s) emptyResult = Inr \<lparr> imageUrl = JStr m, text' = JNull \<rparr>"
  using dataUri_match_form [of s m] dataUri_match_nonempty [of s m]
  by (auto simp: contentBlock_def logPreview_def andThen_def emptyResult_def)

lemma extractContent_found:
  "responseContent data = Inr rc \<Longrightarrow> contentBlock rc emptyResult = Inr r1 \<Longrightarrow>
     truthy (imageUrl r1) \<Longrightarrow> extractContent data = Inr r1"
  by (simp add: extractContent_def andThen_def)

section \<open>The request that is sent\<close>

text \<open>
  C5. When a mask is supplied (the argument is a non-empty string, which is what the
  program tests), the parts of the message are the primary image, the mask as a PNG
  data URI, the secondary image if there is one, and last a single text part. That text
  is the masked-edit template with the caller's prompt between double quotes, followed
  by the image suffix; the bare prompt is never a text part of the message.
\<close>

theorem masked_request_parts:
  assumes "maskBase64 = Some m" and "m \<noteq> []"
  shows "messageContent base64ImageData mime prompt maskBase64 secondary =
           [ImageUrlPart (str ''data:'' @ mime @ str '';base64,'' @ base64ImageData),
            ImageUrlPart (str ''data:image/png;base64,'' @ m)]
           @ (case secondary of
                None \<Rightarrow> []
              | Some img \<Rightarrow>
                  [ImageUrlPart (str ''data:'' @ mimeType img @ str '';base64,'' @ base64 img)])
           @ [TextPart
                (str ''Apply the following instruction only to the masked area of the image: ''
                 @ [of_char (CHR 0x22)] @ prompt @ [of_char (CHR 0x22)]
                 @ str ''. Preserve the unmasked area.''
                 @ str '' Please generate and return an image as output.'')]
         \<and> TextPart prompt \<notin> set (messageContent base64ImageData mime prompt maskBase64 secondary)"
  using assms
  by (simp add: messageContent_def dataUri_def enhancedPrompt_def fullPrompt_def maskGiven_def
      maskedPrompt_def imageSuffix_def str_def split: option.splits)

theorem masked_request_parts_witness:
  "messageContent (str ''QUJD'') (str ''image/png'') (str ''make it red'')
       (Some (str ''TUFTSw=='')) (Some \<lparr> base64 = str ''U0VD'', mimeType = str ''image/jpeg'' \<rparr>) =
     [ImageUrlPart (str ''data:image/png;base64,QUJD''),
      ImageUrlPart (str ''data:image/png;base64,TUFTSw==''),
      ImageUrlPart (str ''data:image/jpeg;base64,U0VD''),
      TextPart (str ''Apply the following instruction only to the masked area of the image: ''
                 @ [of_char (CHR 0x22)] @ str ''make it red'' @ [of_char (CHR 0x22)]
                 @ str ''. Preserve the unmasked area. Please generate and return an image as output.'')]"
  using masked_request_parts [of "Some (str ''TUFTSw=='')" "str ''TUFTSw==''" "str ''QUJD''"
      "str ''image/png''" "str ''make it red''"
      "Some \<lparr> base64 = str ''U0VD'', mimeType = str ''image/jpeg'' \<rparr>"]
  by (simp add: str_def)

text \<open>
  C6. Without a mask the message has exactly one text part, it is the last part, and it is
  the caller's prompt followed by the fixed suffix. With a mask the same suffix follows the
  rewritten prompt.
\<close>

theorem image_suffix_appended:
  "(\<not> maskGiven maskBase64 \<longrightarrow>
      filter isTextPart (messageContent base64ImageData mime prompt maskBase64 secondary) =
        [TextPart (prompt @ str '' Please generate and return an image as output.'')]
      \<and> last (messageContent base64ImageData mime prompt maskBase64 secondary) =
        TextPart (prompt @ str '' Please generate and return an image as output.''))
   \<and> (maskGiven maskBase64 \<longrightarrow>
      filter isTextPart (messageContent base64ImageData mime prompt maskBase64 secondary) =
        [TextPart (maskedPrompt prompt @ str '' Please generate and return an image as output.'')]
      \<and> last (messageContent base64ImageData mime prompt maskBase64 secondary) =
        TextPart (maskedPrompt prompt @ str '' Please generate and return an image as output.''))"
  by (simp add: messageContent_def enhancedPrompt_def fullPrompt_def maskGiven_def imageSuffix_def
      split: option.splits)

theorem image_suffix_appended_witness:
  "\<not> maskGiven None \<and>
   filter isTextPart
     (messageContent (str ''QUJD'') (str ''image/png'') (str ''make it red'') None None) =
     [TextPart (str ''make it red Please generate and return an image as output.'')] \<and>
   maskGiven (Some (str ''TQ=='')) \<and>
   last (messageContent (str ''QUJD'') (str ''image/png'') (str ''make it red'')
           (Some (str ''TQ=='')) None) =
     TextPart (maskedPrompt (str ''make it red'')
                 @ str '' Please generate and return an image as output.'')"
  using image_suffix_appended [of None "str ''QUJD''" "str ''image/png''" "str ''make it red''" None]
    image_suffix_appended [of "Some (str ''TQ=='')" "str ''QUJD''" "str ''image/png''"
      "str ''make it red''" None]
  by (simp add: maskGiven_def str_def)

section \<open>Images found in the content string\<close>

text \<open>
  C3. When the content of the first choice's message is a string that contains
  \<^verbatim>\<open>data:image/\<close>, a non-empty subtype without a semicolon, \<^verbatim>\<open>;base64,\<close> and a non-empty
  payload over the base64 alphabet with \<^verbatim>\<open>=\<close>, the expression matches, and the call
  returns the matched substring as the image with no text, whatever else the response
  holds. The matched substring is a piece of the content that starts no later than the
  given one, has that same form, and runs to the end of its payload: what follows it in
  the content is nothing or a character outside the payload alphabet.
\<close>

theorem data_uri_extracted:
  assumes "responseContent data = Inr (JStr s)"
    and "s = pre @ str ''data:image/'' @ sub @ str '';base64,'' @ pay @ post"
    and "sub \<noteq> []" and "\<forall>c\<in>set sub. c \<noteq> of_char CHR '';''"
    and "pay \<noteq> []" and "\<forall>c\<in>set pay. base64OrPad c"
  shows "\<exists>m before subtype payload after.
           regexMatch dataUriRegex s = Some m
           \<and> extractContent data = Inr \<lparr> imageUrl = JStr m, text' = JNull \<rparr>
           \<and> s = before @ m @ after \<and> length before \<le> length pre
           \<and> m = str ''data:image/'' @ subtype @ str '';base64,'' @ payload
           \<and> subtype \<noteq> [] \<and> (\<forall>c\<in>set subtype. c \<noteq> of_char CHR '';'')
           \<and> payload \<noteq> [] \<and> (\<forall>c\<in>set payload. base64OrPad c)
           \<and> (after = [] \<or> \<not> base64OrPad (hd after))"
proof -
  from assms(4) have ns: "\<forall>c\<in>set sub. notSemicolon c"
    by (simp add: notSemicolon_def)
  from dataUri_match_exists [OF assms(3) ns assms(5,6), of pre post]
  obtain m where m: "regexMatch dataUriRegex s = Some m"
    unfolding assms(2) by blast
  from dataUri_match_form [OF m] obtain before subtype payload after where
    f: "s = before @ m @ after"
       "m = str ''data:image/'' @ subtype @ str '';base64,'' @ payload"
       "subtype \<noteq> []" "\<forall>c\<in>set subtype. notSemicolon c"
       "payload \<noteq> []" "\<forall>c\<in>set payload. base64OrPad c"
       "after = [] \<or> \<not> base64OrPad (hd after)"
       "\<forall>k<length before. matchSeq dataUriRegex k (drop k s) = None"
    by blast
  have "matchSeq dataUriRegex (length pre) (drop (length pre) s) \<noteq> None"
    unfolding assms(2) using dataUri_match_here [OF assms(3) ns assms(5,6)] by simp
  with f(8) have left: "length before \<le> length pre"
    by (meson not_le)
  have "truthy (imageUrl \<lparr> imageUrl = JStr m, text' = JNull \<rparr>)"
    using dataUri_match_nonempty [OF m] by simp
  from extractContent_found [OF assms(1) contentBlock_dataUri [OF m] this]
  have ex: "extractContent data = Inr \<lparr> imageUrl = JStr m, text' = JNull \<rparr>" .
  from f(4) have "\<forall>c\<in>set subtype. c \<noteq> of_char CHR '';''"
    by (simp add: notSemicolon_def)
  with m ex f(1,2,3,5,6,7) left show ?thesis by blast
qed

theorem data_uri_extracted_witness:
  "regexMatch dataUriRegex (str ''here: data:image/png;base64,QUJD text'')
     = Some (str ''data:image/png;base64,QUJD'')
   \<and> extractContent
         (JObj [(str ''choices'',
            JArr [JObj [(str ''message'',
              JObj [(str ''content'', JStr (str ''here: data:image/png;base64,QUJD text''))])]])])
       = Inr \<lparr> imageUrl = JStr (str ''data:image/png;base64,QUJD''), text' = JNull \<rparr>"
proof -
  have 1: "responseContent
         (JObj [(str ''choices'',
            JArr [JObj [(str ''message'',
              JObj [(str ''content'', JStr (str ''here: data:image/png;base64,QUJD text''))])]])])
       = Inr (JStr (str ''here: data:image/png;base64,QUJD text''))"
    by code_simp
  have 2: "str ''here: data:image/png;base64,QUJD text'' =
      str ''here: '' @ str ''data:image/'' @ str ''png'' @ str '';base64,'' @ str ''QUJD''
        @ str '' text''"
    by (simp add: str_def)
  have 3: "str ''png'' \<noteq> []" "\<forall>c\<in>set (str ''png''). c \<noteq> of_char CHR '';''"
    by (simp_all add: str_def)
  have 4: "str ''QUJD'' \<noteq> []" "\<forall>c\<in>set (str ''QUJD''). base64OrPad c"
    by (simp_all add: str_def base64OrPad_def base64Char_def)
  from data_uri_extracted [OF 1 2 3 4] obtain m where
    m: "regexMatch dataUriRegex (str ''here: data:image/png;base64,QUJD text'') = Some m"
       "extractContent
         (JObj [(str ''choices'',
            JArr [JObj [(str ''message'',
              JObj [(str ''content'', JStr (str ''here: data:image/png;base64,QUJD text''))])]])])
       = Inr \<lparr> imageUrl = JStr m, text' = JNull \<rparr>"
    by blast
  have "regexMatch dataUriRegex (str ''here: data:image/png;base64,QUJD text'')
     = Some (str ''data:image/png;base64,QUJD'')"
    by code_simp
  with m show ?thesis by simp
qed

text \<open>The example of a content string with text around the data URI, evaluated.\<close>

lemma data_uri_example:
  "extractContent
     (JObj [(str ''choices'',
        JArr [JObj [(str ''message'',
          JObj [(str ''content'', JStr (str ''here: data:image/png;base64,QUJD text''))])]])])
   = Inr \<lparr> imageUrl = JStr (str ''data:image/png;base64,QUJD''), text' = JNull \<rparr>"
  by code_simp

text \<open>
  C4. Round trip. For a primary image whose MIME type is \<^verbatim>\<open>image/\<close> and a non-empty subtype
  without a semicolon, and whose payload is non-empty and over the base64 alphabet, the
  request is built, the transport echoes the URL of the request's first image part as
  the message content, and the call returns exactly \<^verbatim>\<open>data:<mime>;base64,<payload>\<close>,
  with no text.
\<close>

theorem echo_round_trip:
  assumes "mime = str ''image/'' @ sub"
    and "sub \<noteq> []" and "\<forall>c\<in>set sub. c \<noteq> of_char CHR '';''"
    and "base64ImageData \<noteq> []" and "\<forall>c\<in>set base64ImageData. base64OrPad c"
  shows "editImage engine echoPrimary base64ImageData mime prompt maskBase64 secondary =
           Inr \<lparr> imageUrl = JStr (str ''data:'' @ mime @ str '';base64,'' @ base64ImageData),
                 text' = JNull \<rparr>"
proof -
  let ?uri = "str ''data:image/'' @ sub @ str '';base64,'' @ base64ImageData"
  let ?data = "JObj [(str ''choices'',
                 JArr [JObj [(str ''message'', JObj [(str ''content'', JStr ?uri)])]])]"
  have uri: "dataUri mime base64ImageData = ?uri"
    by (simp add: dataUri_def assms(1) str_def)
  have fetch: "echoPrimary (buildRequest base64ImageData mime prompt maskBase64 secondary) =
      Resolved \<lparr> ok = True, status = 200, statusText = str ''OK'', json = Inr ?data \<rparr>"
    by (simp add: echoPrimary_def buildRequest_def messageContent_def uri)
  have rc: "responseContent ?data = Inr (JStr ?uri)"
    by (simp add: responseContent_def firstMessage_def getProp_def getOpt_def andThen_def str_def)
  from assms(3) have "\<forall>c\<in>set sub. notSemicolon c"
    by (simp add: notSemicolon_def)
  from dataUri_match_whole [OF assms(2) this assms(4,5)]
  have m: "regexMatch dataUriRegex ?uri = Some ?uri" .
  have "truthy (imageUrl \<lparr> imageUrl = JStr ?uri, text' = JNull \<rparr>)"
    by (simp add: str_def)
  from extractContent_found [OF rc contentBlock_dataUri [OF m] this]
  have ex: "extractContent ?data = Inr \<lparr> imageUrl = JStr ?uri, text' = JNull \<rparr>" .
  have res: "editImage engine echoPrimary base64ImageData mime prompt maskBase64 secondary =
      Inr \<lparr> imageUrl = JStr ?uri, text' = JNull \<rparr>"
    by (simp add: editImage_def tryBody_def fetch andThen_def ex)
  have "str ''data:'' @ mime @ str '';base64,'' @ base64ImageData = ?uri"
    by (simp add: assms(1) str_def)
  with res show ?thesis by simp
qed

theorem echo_round_trip_witness:
  "editImage (\<lambda>e. []) echoPrimary (str ''QUJD'') (str ''image/png'') (str ''make it red'') None None =
     Inr \<lparr> imageUrl = JStr (str ''data:image/png;base64,QUJD''), text' = JNull \<rparr>"
proof -
  have 1: "str ''image/png'' = str ''image/'' @ str ''png''"
    by (simp add: str_def)
  have 2: "str ''png'' \<noteq> []" "\<forall>c\<in>set (str ''png''). c \<noteq> of_char CHR '';''"
    by (simp_all add: str_def)
  have 3: "str ''QUJD'' \<noteq> []" "\<forall>c\<in>set (str ''QUJD''). base64OrPad c"
    by (simp_all add: str_def base64OrPad_def base64Char_def)
  show ?thesis
    using echo_round_trip [OF 1 2 3, of "\<lambda>e. []" "str ''make it red''" None None]
    by (simp add: str_def)
qed

section \<open>Raw base64 content\<close>

lemma base64Char_not_pad: "base64Char c \<Longrightarrow> \<not> isPad c"
  by (auto simp: base64Char_def isPad_def)

lemma pad_not_base64Char: "\<not> base64Char (of_char CHR ''='')"
  by (simp add: base64Char_def)

lemma base64Pattern_later: "0 < i \<Longrightarrow> regexExecFrom base64Pattern i s = None"
  by (induction s arbitrary: i) (simp_all add: base64Pattern_def)

lemma pad_tail:
  "n \<le> 2 \<Longrightarrow> matchSeq [Rep isPad 0 (Some 2), Eol] j (replicate n (of_char CHR ''='')) \<noteq> None"
proof -
  assume "n \<le> 2"
  then consider "n = 0" | "n = 1" | "n = 2" by linarith
  then show ?thesis
    by cases (simp_all add: isPad_def numeral_2_eq_2)
qed

lemma base64Pattern_accepts:
  assumes "n \<le> 2" and "100 \<le> length b" and "\<forall>c\<in>set b. base64Char c"
  shows "regexTest base64Pattern (b @ replicate n (of_char CHR ''=''))"
proof -
  let ?t = "b @ replicate n (of_char CHR ''='')"
  have k: "\<And>c cs j. base64Char c \<Longrightarrow> matchSeq [Rep isPad 0 (Some 2), Eol] j (c # cs) = None"
    by (simp add: base64Char_not_pad)
  have tw: "takeWhile base64Char ?t = b"
    using assms(3) pad_not_base64Char by (cases n) (simp_all add: takeWhile_append2)
  have dw: "dropWhile base64Char ?t = replicate n (of_char CHR ''='')"
    using assms(3) pad_not_base64Char by (cases n) (simp_all add: dropWhile_append2)
  have "matchSeq base64Pattern 0 ?t =
          matchSeq [Rep isPad 0 (Some 2), Eol] (0 + length b) (replicate n (of_char CHR ''=''))"
    unfolding base64Pattern_def
    by (simp only: matchSeq.simps
          repeatClass_unique [where p = base64Char and k = "matchSeq [Rep isPad 0 (Some 2), Eol]", OF k]
          tw dw assms(2) if_True) simp
  with pad_tail [OF assms(1)] obtain j rest where "matchSeq base64Pattern 0 ?t = Some (j, rest)"
    by fastforce
  from regexExecFrom_hit [OF this] show ?thesis
    by (simp add: regexTest_def)
qed

text \<open>A string without a colon holds no data URI; trimming only removes white space.\<close>

lemma dataUri_needs_colon:
  assumes "of_char CHR '':'' \<notin> set s"
  shows "regexMatch dataUriRegex s = None"
proof (rule ccontr)
  assume "regexMatch dataUriRegex s \<noteq> None"
  then obtain m where "regexMatch dataUriRegex s = Some m" by blast
  from dataUri_match_form [OF this] obtain pre sub pay rest where
    "s = pre @ m @ rest" "m = str ''data:image/'' @ sub @ str '';base64,'' @ pay"
    by blast
  then have "of_char CHR '':'' \<in> set s"
    by (simp add: str_def)
  with assms show False by simp
qed

lemma set_dropWhile_cases: "c \<in> set xs \<Longrightarrow> c \<in> set (dropWhile P xs) \<or> P c"
  by (induction xs) auto

lemma set_trim_cases: "c \<in> set s \<Longrightarrow> c \<in> set (trim s) \<or> isWhiteSpace c"
  unfolding trim_def
  using set_dropWhile_cases [of c s isWhiteSpace]
    set_dropWhile_cases [of c "rev (dropWhile isWhiteSpace s)" isWhiteSpace]
  by auto

lemma colon_classes:
  "\<not> isWhiteSpace (of_char CHR '':'')" "\<not> base64Char (of_char CHR '':'')"
  "of_char CHR '':'' \<noteq> (of_char CHR ''='' :: jschar)"
  by (simp_all add: isWhiteSpace_def base64Char_def)

lemma trim_Nil: "trim [] = []"
  by (simp add: trim_def)

text \<open>
  C7. When the content of the first choice's message is a string whose trimmed form is at
  least 100 characters of letters, digits, \<^verbatim>\<open>+\<close> and \<^verbatim>\<open>/\<close> followed by at most two \<^verbatim>\<open>=\<close>,
  the call returns \<^verbatim>\<open>data:image/png;base64,\<close> followed by the trimmed content as the image,
  with no text. Such a string never holds a data URI, so that condition of the claim
  needs no hypothesis.
\<close>

theorem raw_base64_extracted:
  assumes "responseContent data = Inr (JStr s)"
    and "trim s = b @ replicate n (of_char CHR ''='')"
    and "n \<le> 2" and "100 \<le> length b" and "\<forall>c\<in>set b. base64Char c"
  shows "regexMatch dataUriRegex s = None
         \<and> extractContent data =
             Inr \<lparr> imageUrl = JStr (str ''data:image/png;base64,'' @ trim s), text' = JNull \<rparr>"
proof -
  have "of_char CHR '':'' \<notin> set (trim s)"
    unfolding assms(2) using assms(5) colon_classes by auto
  then have "of_char CHR '':'' \<notin> set s"
    using set_trim_cases [of "of_char CHR '':''" s] colon_classes(1) by blast
  then have no: "regexMatch dataUriRegex s = None"
    by (rule dataUri_needs_colon)
  have test: "regexTest base64Pattern (trim s)"
    unfolding assms(2) by (rule base64Pattern_accepts [OF assms(3,4,5)])
  have "s \<noteq> []"
    using assms(2,4) trim_Nil by auto
  then have cb: "contentBlock (JStr s) emptyResult =
      Inr \<lparr> imageUrl = JStr (str ''data:image/png;base64,'' @ trim s), text' = JNull \<rparr>"
    by (simp add: contentBlock_def logPreview_def andThen_def no test emptyResult_def str_def)
  have "truthy (imageUrl \<lparr> imageUrl = JStr (str ''data:image/png;base64,'' @ trim s),
                           text' = JNull \<rparr>)"
    by (simp add: str_def)
  from extractContent_found [OF assms(1) cb this] no show ?thesis by simp
qed

theorem raw_base64_extracted_witness:
  "extractContent
     (JObj [(str ''choices'',
        JArr [JObj [(str ''message'',
          JObj [(str ''content'',
            JStr (str ''  '' @ replicate 150 (of_char CHR ''A'') @ str ''=='' @ [0x000A]))])]])])
   = Inr \<lparr> imageUrl =
             JStr (str ''data:image/png;base64,'' @ replicate 150 (of_char CHR ''A'') @ str ''==''),
           text' = JNull \<rparr>"
proof -
  let ?s = "str ''  '' @ replicate 150 (of_char CHR ''A'') @ str ''=='' @ [0x000A]"
  have 1: "responseContent
     (JObj [(str ''choices'',
        JArr [JObj [(str ''message'', JObj [(str ''content'', JStr ?s)])]])])
     = Inr (JStr ?s)"
    by (simp add: responseContent_def firstMessage_def getProp_def getOpt_def andThen_def str_def)
  have A: "\<not> isWhiteSpace (of_char CHR ''A'')" "\<not> isWhiteSpace (of_char CHR ''='')"
    "isWhiteSpace 0x0020" "isWhiteSpace 0x000A"
    by (simp_all add: isWhiteSpace_def)
  have d1: "dropWhile isWhiteSpace ?s = replicate 150 (of_char CHR ''A'') @ str ''=='' @ [0x000A]"
    using A by (simp add: str_def)
  have 2: "trim ?s = replicate 150 (of_char CHR ''A'') @ replicate 2 (of_char CHR ''='')"
    unfolding trim_def d1 using A by (simp add: str_def numeral_2_eq_2)
  have 3: "(2::nat) \<le> 2" "100 \<le> length (replicate 150 (of_char CHR ''A'' :: jschar))"
    "\<forall>c\<in>set (replicate 150 (of_char CHR ''A'')). base64Char c"
    by (simp_all add: base64Char_def)
  have 4: "replicate 2 (of_char CHR ''='') = str ''==''"
    by (simp add: str_def numeral_2_eq_2)
  show ?thesis
    using raw_base64_extracted [OF 1 2 3] unfolding 2 4 by simp
qed

section \<open>The alternate formats\<close>

text \<open>The alternate formats only ever write the image field.\<close>

lemma scanImageUrlParts_text:
  "scanImageUrlParts xs result = Inr r \<Longrightarrow> text' r = text' result"
  by (induction xs) (auto simp: andThen_def split: sum.splits if_splits)

lemma imagesBlock_text: "imagesBlock message result = Inr r \<Longrightarrow> text' r = text' result"
  by (auto simp: imagesBlock_def Let_def split: if_splits jsval.splits
      dest: scanImageUrlParts_text)

lemma attachmentsBlock_text:
  "attachmentsBlock message result = Inr r \<Longrightarrow> text' r = text' result"
  by (auto simp: attachmentsBlock_def andThen_def split: if_splits jsval.splits sum.splits)

lemma directUrlBlock_text: "text' (directUrlBlock message result) = text' result"
  by (simp add: directUrlBlock_def)

lemma contentArrayBlock_text:
  "contentArrayBlock message result = Inr r \<Longrightarrow> text' r = text' result"
  by (auto simp: contentArrayBlock_def split: if_splits jsval.splits
      dest: scanImageUrlParts_text)

lemma alternateFormats_text:
  assumes "alternateFormats message result = Inr r"
  shows "text' r = text' result"
proof -
  from assms obtain r1 r2 where
    h: "imagesBlock message result = Inr r1" "attachmentsBlock message r1 = Inr r2"
       "contentArrayBlock message (directUrlBlock message r2) = Inr r"
    by (auto simp: alternateFormats_def andThen_def split: sum.splits)
  show ?thesis
    using imagesBlock_text [OF h(1)] attachmentsBlock_text [OF h(2)]
      contentArrayBlock_text [OF h(3)] directUrlBlock_text [of message r2]
    by simp
qed

lemma contentBlock_text:
  assumes "contentBlock rc emptyResult = Inr r1"
  shows "text' r1 = contentText rc"
proof (cases rc)
  case (JStr s)
  show ?thesis
  proof (cases "regexMatch dataUriRegex s")
    case None
    with assms JStr show ?thesis
      by (auto simp: contentBlock_def logPreview_def andThen_def contentText_def emptyResult_def
          str_def split: if_splits)
  next
    case (Some m)
    with assms JStr dataUri_match_nonempty [OF Some] show ?thesis
      by (auto simp: contentBlock_def logPreview_def andThen_def contentText_def emptyResult_def
          split: if_splits)
  qed
qed (use assms in \<open>auto simp: contentBlock_def logPreview_def andThen_def contentText_def
       emptyResult_def split: if_splits\<close>)

lemma extractContent_text:
  assumes "extractContent data = Inr r" and "responseContent data = Inr rc"
  shows "truthy (imageUrl r) \<and> text' r = contentText rc"
proof -
  from assms obtain r1 where r1: "contentBlock rc emptyResult = Inr r1"
    by (auto simp: extractContent_def andThen_def split: sum.splits)
  from assms r1 obtain r2 where
    r2: "(if \<not> truthy (imageUrl r1)
          then andThen (firstMessage data)
                 (\<lambda>message. if truthy message then alternateFormats message r1 else Inr r1)
          else Inr r1) = Inr r2"
    and fin: "(if \<not> truthy (imageUrl r2) then Inl (JsError (noImageMessage (text' r2)))
               else Inr r2) = Inr r"
    by (auto simp: extractContent_def andThen_def split: sum.splits)
  from fin have r: "r = r2" "truthy (imageUrl r2)"
    by (auto split: if_splits)
  from r2 have "text' r2 = text' r1"
    by (auto simp: andThen_def split: if_splits sum.splits dest: alternateFormats_text)
  with r contentBlock_text [OF r1] show ?thesis by simp
qed

text \<open>
  C1. The claim that a successful result never carries both an image and a text fails:
  with a textual content and an image in \<^verbatim>\<open>message.images\<close>, the text set by the content
  block stays in the result.
\<close>

theorem image_with_text_counterexample:
  "extractContent
     (JObj [(str ''choices'',
        JArr [JObj [(str ''message'',
          JObj [(str ''content'', JStr (str ''Here is your image'')),
                (str ''images'',
                   JArr [JObj [(str ''type'', JStr (str ''image_url'')),
                               (str ''image_url'',
                                  JObj [(str ''url'', JStr (str ''https://x/y.png''))])]])])]])])
   = Inr \<lparr> imageUrl = JStr (str ''https://x/y.png''),
           text' = JStr (str ''Here is your image'') \<rparr>"
  by code_simp

text \<open>
  C1, as the code has it. Every successful result has a truthy image. Its text is null
  when the image came from the content string (a data URI or raw base64) and when the
  content is not a non-empty string; when the content is a non-empty string in which
  neither expression finds an image, so that the image comes from an alternate format,
  the text is that string.
\<close>

theorem image_result_text:
  assumes "extractContent data = Inr r" and "responseContent data = Inr rc"
  shows "truthy (imageUrl r)
         \<and> text' r =
             (case rc of
                JStr s \<Rightarrow>
                  if s \<noteq> [] \<and> regexMatch dataUriRegex s = None
                       \<and> \<not> regexTest base64Pattern (trim s)
                  then JStr s else JNull
              | _ \<Rightarrow> JNull)"
  using extractContent_text [OF assms] by (simp add: contentText_def)

theorem image_result_text_witness:
  "truthy (imageUrl \<lparr> imageUrl = JStr (str ''data:image/png;base64,QUJD''), text' = JNull \<rparr>)
   \<and> text' \<lparr> imageUrl = JStr (str ''data:image/png;base64,QUJD''), text' = JNull \<rparr> =
       (case JStr (str ''here: data:image/png;base64,QUJD text'') of
          JStr s \<Rightarrow>
            if s \<noteq> [] \<and> regexMatch dataUriRegex s = None
                 \<and> \<not> regexTest base64Pattern (trim s)
            then JStr s else JNull
        | _ \<Rightarrow> JNull)"
proof -
  have 1: "responseContent
         (JObj [(str ''choices'',
            JArr [JObj [(str ''message'',
              JObj [(str ''content'', JStr (str ''here: data:image/png;base64,QUJD text''))])]])])
       = Inr (JStr (str ''here: data:image/png;base64,QUJD text''))"
    by code_simp
  show ?thesis
    by (rule image_result_text [OF data_uri_example 1])
qed

text \<open>
  C2. A content that is an array of parts is never scanned: an array is truthy, so the
  content block runs and calls \<^verbatim>\<open>match\<close> on it, which only strings have. The call throws a
  TypeError before the loop over \<^verbatim>\<open>message.content\<close> is reached.
\<close>

theorem content_array_throws:
  "extractContent
     (JObj [(str ''choices'',
        JArr [JObj [(str ''message'',
          JObj [(str ''content'',
            JArr [JObj [(str ''type'', JStr (str ''image_url'')),
                        (str ''image_url'',
                           JObj [(str ''url'', JStr (str ''https://x/y.png''))])]])])]])])
   = Inl (EngineError (NotAFunction (str ''match'')))"
  by code_simp

text \<open>The same holds for every array content, whatever its parts.\<close>

lemma content_array_never_scanned:
  assumes "responseContent data = Inr (JArr parts)"
  shows "extractContent data = Inl (EngineError (NotAFunction (str ''match'')))"
  using assms by (simp add: extractContent_def andThen_def contentBlock_def logPreview_def str_def)

text \<open>
  A content object with an own \<^verbatim>\<open>substring\<close> property fails one line earlier, in the
  logging call.
\<close>

lemma content_object_logging_throws:
  "extractContent
     (JObj [(str ''choices'',
        JArr [JObj [(str ''message'',
          JObj [(str ''content'', JObj [(str ''substring'', JNum 5)])])]])])
   = Inl (EngineError (NotAFunction (str ''substring'')))"
  by code_simp

text \<open>
  C8. The claim that a message without content always ends in the extraction failure
  fails: the alternate formats still run, and an entry of \<^verbatim>\<open>message.images\<close> is returned.
\<close>

theorem no_content_image_counterexample:
  "extractContent
     (JObj [(str ''choices'',
        JArr [JObj [(str ''message'',
          JObj [(str ''images'',
                   JArr [JObj [(str ''type'', JStr (str ''image_url'')),
                               (str ''image_url'',
                                  JObj [(str ''url'', JStr (str ''https://x/y.png''))])]])])]])])
   = Inr \<lparr> imageUrl = JStr (str ''https://x/y.png''), text' = JNull \<rparr>"
  by code_simp

lemma noImageMessage_no_fetch: "\<not> js_includes (noImageMessage JNull) (str ''fetch'')"
  by code_simp

text \<open>
  C8, as the code has it. When the first choice's message has no content (or a falsy one),
  no text is captured and the call goes straight to the alternate formats, if the message
  is truthy. It returns the image they find; if they find none it throws the extraction
  failure without a model response in its message, and the catch clause passes that
  message on unchanged.
\<close>

theorem no_content_alternate_formats:
  assumes "firstMessage data = Inr message"
    and "\<not> truthy (getOpt message (str ''content''))"
  shows "extractContent data =
           (case (if truthy message then alternateFormats message emptyResult
                  else Inr emptyResult) of
              Inl t \<Rightarrow> Inl t
            | Inr r \<Rightarrow>
                if truthy (imageUrl r) then Inr r
                else Inl (JsError (noImageMessage JNull)))
         \<and> catchClause engine (JsError (noImageMessage JNull)) = noImageMessage JNull"
proof -
  have rc: "responseContent data = Inr (getOpt message (str ''content''))"
    by (simp add: responseContent_def assms(1) andThen_def)
  have cb: "contentBlock (getOpt message (str ''content'')) emptyResult = Inr emptyResult"
    using assms(2) by (simp add: contentBlock_def)
  have e: "\<not> truthy (imageUrl emptyResult)" "text' emptyResult = JNull"
    by (simp_all add: emptyResult_def)
  have keep: "\<And>r. alternateFormats message emptyResult = Inr r \<Longrightarrow> text' r = JNull"
    using alternateFormats_text e(2) by fastforce
  have "extractContent data =
           (case (if truthy message then alternateFormats message emptyResult
                  else Inr emptyResult) of
              Inl t \<Rightarrow> Inl t
            | Inr r \<Rightarrow>
                if truthy (imageUrl r) then Inr r
                else Inl (JsError (noImageMessage JNull)))"
    using keep e by (auto simp: extractContent_def rc cb assms(1) andThen_def split: sum.splits)
  moreover have "catchClause engine (JsError (noImageMessage JNull)) = noImageMessage JNull"
    using noImageMessage_no_fetch by (simp add: normalise_def)
  ultimately show ?thesis by simp
qed

theorem no_content_alternate_formats_witness:
  "extractContent (JObj [(str ''choices'', JArr [JObj [(str ''message'', JObj [])]])])
     = Inl (JsError (noImageMessage JNull))
   \<and> catchClause (\<lambda>e. []) (JsError (noImageMessage JNull)) = noImageMessage JNull"
proof -
  have 1: "firstMessage (JObj [(str ''choices'', JArr [JObj [(str ''message'', JObj [])]])])
      = Inr (JObj [])"
    by (simp add: firstMessage_def getProp_def getOpt_def andThen_def str_def)
  have 2: "\<not> truthy (getOpt (JObj []) (str ''content''))"
    by (simp add: getOpt_def)
  have 3: "alternateFormats (JObj []) emptyResult = Inr emptyResult"
    by (simp add: alternateFormats_def imagesBlock_def attachmentsBlock_def directUrlBlock_def
        contentArrayBlock_def andThen_def emptyResult_def)
  show ?thesis
    using no_content_alternate_formats [OF 1 2, of "\<lambda>e. []"]
    unfolding 3 by (simp add: emptyResult_def)
qed

section \<open>Attachments\<close>

lemma findAttachment_first:
  assumes "\<forall>a\<in>set before. isImageAttachment a = Inr False"
    and "isImageAttachment att = Inr True"
  shows "findAttachment (before @ att # after) = Inr att"
  using assms by (induction before) (simp_all add: andThen_def)

text \<open>
  C10. Of the attachments only the first one that is an image (type \<^verbatim>\<open>image\<close>, or a content
  type starting with \<^verbatim>\<open>image/\<close>) is looked at. When it has no truthy URL the attachments
  give no image, whatever the attachments after it hold, and the call goes on to the
  direct \<^verbatim>\<open>image_url\<close> field of the message.
\<close>

theorem first_image_attachment_only:
  assumes "\<not> truthy (imageUrl result)"
    and "member_of message (str ''attachments'') = JArr (before @ att # after)"
    and "\<forall>a\<in>set before. isImageAttachment a = Inr False"
    and "isImageAttachment att = Inr True"
    and "\<not> truthy (getOpt att (str ''url''))"
  shows "attachmentsBlock message result = Inr result
         \<and> (imagesBlock message result = Inr result \<longrightarrow>
              alternateFormats message result =
                contentArrayBlock message (directUrlBlock message result))
         \<and> (imagesBlock message result = Inr result
              \<and> truthy (member_of message (str ''image_url'')) \<longrightarrow>
              alternateFormats message result =
                Inr (result\<lparr>imageUrl := member_of message (str ''image_url'')\<rparr>))"
proof -
  have a: "attachmentsBlock message result = Inr result"
    using assms(1,5) findAttachment_first [OF assms(3,4), of after]
    by (simp add: attachmentsBlock_def assms(2) andThen_def)
  have b: "imagesBlock message result = Inr result \<Longrightarrow>
      alternateFormats message result = contentArrayBlock message (directUrlBlock message result)"
    by (simp add: alternateFormats_def andThen_def a)
  have c: "truthy (member_of message (str ''image_url'')) \<Longrightarrow>
      contentArrayBlock message (directUrlBlock message result) =
        Inr (result\<lparr>imageUrl := member_of message (str ''image_url'')\<rparr>)"
    using assms(1) by (simp add: contentArrayBlock_def directUrlBlock_def)
  from a b c show ?thesis by simp
qed

theorem first_image_attachment_only_witness:
  "alternateFormats
     (JObj [(str ''attachments'',
               JArr [JObj [(str ''type'', JStr (str ''file'')),
                           (str ''url'', JStr (str ''https://x/notes.txt''))],
                     JObj [(str ''type'', JStr (str ''image''))],
                     JObj [(str ''content_type'', JStr (str ''image/png'')),
                           (str ''url'', JStr (str ''https://x/later.png''))]]),
            (str ''image_url'', JStr (str ''https://x/direct.png''))])
     emptyResult
   = Inr \<lparr> imageUrl = JStr (str ''https://x/direct.png''), text' = JNull \<rparr>"
proof -
  let ?file = "JObj [(str ''type'', JStr (str ''file'')),
                     (str ''url'', JStr (str ''https://x/notes.txt''))]"
  let ?first = "JObj [(str ''type'', JStr (str ''image''))]"
  let ?later = "JObj [(str ''content_type'', JStr (str ''image/png'')),
                      (str ''url'', JStr (str ''https://x/later.png''))]"
  let ?message = "JObj [(str ''attachments'', JArr [?file, ?first, ?later]),
                        (str ''image_url'', JStr (str ''https://x/direct.png''))]"
  have 1: "\<not> truthy (imageUrl emptyResult)"
    by (simp add: emptyResult_def)
  have 2: "member_of ?message (str ''attachments'') = JArr ([?file] @ ?first # [?later])"
    by (simp add: str_def)
  have 3: "\<forall>a\<in>set [?file]. isImageAttachment a = Inr False"
    by (simp add: isImageAttachment_def getProp_def andThen_def str_def)
  have 4: "isImageAttachment ?first = Inr True"
    by (simp add: isImageAttachment_def getProp_def andThen_def str_def)
  have 5: "\<not> truthy (getOpt ?first (str ''url''))"
    by (simp add: getOpt_def str_def)
  have 6: "imagesBlock ?message emptyResult = Inr emptyResult"
    by (simp add: imagesBlock_def str_def)
  have 7: "member_of ?message (str ''image_url'') = JStr (str ''https://x/direct.png'')"
    by (simp add: str_def)
  have 8: "truthy (member_of ?message (str ''image_url''))"
    unfolding 7 by (simp add: str_def)
  from first_image_attachment_only [OF 1 2 3 4 5] 6 8
  have "alternateFormats ?message emptyResult =
      Inr (emptyResult\<lparr>imageUrl := member_of ?message (str ''image_url'')\<rparr>)"
    by blast
  then show ?thesis
    unfolding 7 by (simp add: emptyResult_def)
qed

section \<open>Failures\<close>

text \<open>
  C9. A non-success HTTP status does not always surface with the message of its error
  body. The catch clause, written to handle network errors, replaces every message that
  contains \<^verbatim>\<open>fetch\<close>, wherever it was thrown. For a 502 response whose error body says
  \<^verbatim>\<open>upstream fetch timed out\<close>, the caller gets the connectivity message.
\<close>

theorem http_error_message_replaced:
  "editImage (\<lambda>e. [])
     (\<lambda>req. Resolved \<lparr> ok = False, status = 502, statusText = str ''Bad Gateway'',
              json = Inr (JObj [(str ''error'',
                       JObj [(str ''message'', JStr (str ''upstream fetch timed out''))])]) \<rparr>)
     (str ''QUJD'') (str ''image/png'') (str ''make it red'') None None
   = Inl (str ''Network error occurred. Please check your internet connection and try again.'')"
  by code_simp

text \<open>
  The same happens to the extraction failure when the reply of the model, which is put
  into its message, contains \<^verbatim>\<open>fetch\<close>.
\<close>

lemma model_reply_message_replaced:
  "editImage (\<lambda>e. [])
     (\<lambda>req. Resolved \<lparr> ok = True, status = 200, statusText = str ''OK'',
              json = Inr (JObj [(str ''choices'',
                       JArr [JObj [(str ''message'',
                         JObj [(str ''content'', JStr (str ''I cannot fetch that image''))])]])]) \<rparr>)
     (str ''QUJD'') (str ''image/png'') (str ''make it red'') None None
   = Inl (str ''Network error occurred. Please check your internet connection and try again.'')"
  by code_simp

text \<open>
  What the branch for a response that is not ok throws, for every parsed error body: the
  error made from \<^verbatim>\<open>error.message\<close> whenever that is truthy, string or not, and the status
  line otherwise. And what the caller gets for every thrown value.
\<close>

lemma httpFailure_thrown:
  assumes "json r = Inr errorData" and "getProp errorData (str ''error'') = Inr e"
  shows "httpFailure r =
           (if truthy (getOpt e (str ''message'')) then newError (getOpt e (str ''message''))
            else JsError (str ''HTTP '' @ decimal (status r) @ str '': '' @ statusText r))"
  by (simp add: httpFailure_def assms httpErrorText_def Let_def)

lemma editImage_caught:
  assumes "tryBody fetch base64ImageData mime prompt maskBase64 secondary = Inl t"
  shows "editImage engine fetch base64ImageData mime prompt maskBase64 secondary =
           Inl (case t of
                  JsError m \<Rightarrow>
                    if js_includes m (str ''fetch'') then networkErrorMessage else m
                | EngineError e \<Rightarrow>
                    if js_includes (engine e) (str ''fetch'') then networkErrorMessage
                    else engine e
                | NonError \<Rightarrow> unknownErrorMessage)"
  by (cases t) (simp_all add: editImage_def assms normalise_def)

text \<open>The status line is what the caller gets when the error body has no message.\<close>

lemma http_status_example:
  "editImage (\<lambda>e. [])
     (\<lambda>req. Resolved \<lparr> ok = False, status = 500, statusText = str ''Internal Server Error'',
              json = Inr (JObj []) \<rparr>)
     (str ''QUJD'') (str ''image/png'') (str ''make it red'') None None
   = Inl (str ''HTTP 500: Internal Server Error'')"
  by code_simp

end
